theory Spec2Isabelle
  imports Complex_Main
begin

section \<open>The OpenML benchmark harness of genens\<close>

text \<open>
  A shallow embedding of \<^verbatim>\<open>tests/run_openml.py\<close> and \<^verbatim>\<open>genens/render/plot.py\<close>.
  Pure helpers are HOL functions; the harness itself is modelled by explicit state
  passing over a small model of the file system, the standard output and the clock,
  with every Python exception a value of type \<open>exc\<close>.
\<close>

subsection \<open>The sample-size heuristic\<close>

text \<open>
  \<^verbatim>\<open>_heuristic_sample_size(n_rows, n_cols)\<close>. The arguments are the two entries of an
  array shape, Python integers of unbounded size; the results are the seven literals
  of the source, read as the fractions they denote.
\<close>

definition heuristic_sample_size :: "int \<Rightarrow> int \<Rightarrow> real" where
  "heuristic_sample_size n_rows n_cols =
     (let size = n_rows * n_cols in
      if size < 10000 then 1.0
      else if n_rows < 1000 then 0.5
      else if n_rows < 5000 then 0.25
      else if n_rows < 10000 then 0.1
      else if n_rows < 20000 then 0.05
      else if n_cols < 10 then 0.02
      else 0.01)"

subsection \<open>The conditional imputer\<close>

text \<open>
  \<^verbatim>\<open>_conditional_imput(X, categorical)\<close> builds a \<^verbatim>\<open>ColumnTransformer\<close> of two
  \<^verbatim>\<open>SimpleImputer\<close>s. The transformer is the value the source constructs: a list of
  (name, imputer, column indices). What a \<^verbatim>\<open>SimpleImputer\<close> of a given strategy does
  to a column is scikit-learn's business and is not modelled.
\<close>

datatype strategy = Mean | Median

datatype simple_imputer = SimpleImputer (strategy: strategy)

datatype column_transformer =
  ColumnTransformer (transformers: "(string \<times> simple_imputer \<times> nat list) list")

definition conditional_imput :: "'x \<Rightarrow> bool list \<Rightarrow> column_transformer" where
  "conditional_imput X categorical =
     (let categorical_id = [i. (i, val) \<leftarrow> enumerate 0 categorical, val];
          numerical_id = [i. (i, val) \<leftarrow> enumerate 0 categorical, \<not> val]
      in ColumnTransformer
           [(''mean_imputer'', SimpleImputer Mean, numerical_id),
            (''median_imputer'', SimpleImputer Median, categorical_id)])"

subsection \<open>Exceptions, the state of the machine, and computations\<close>

text \<open>
  The exceptions the harness distinguishes. \<^verbatim>\<open>FileExistsError\<close> and
  \<^verbatim>\<open>FileNotFoundError\<close> are subclasses of \<^verbatim>\<open>OSError\<close>; \<open>OtherOSError\<close> stands for
  the remaining ones, \<open>Error\<close> for every exception outside that hierarchy.
\<close>

datatype exc =
  TimeoutException | FileExistsError | FileNotFoundError | OtherOSError string | Error string

fun is_OSError :: "exc \<Rightarrow> bool" where
  "is_OSError FileExistsError = True"
| "is_OSError FileNotFoundError = True"
| "is_OSError (OtherOSError _) = True"
| "is_OSError _ = False"

text \<open>Candidate pipelines, opaque but for the composition \<^verbatim>\<open>evaluate_pipeline\<close> builds.\<close>

datatype model =
  Candidate nat
| Preprocessor column_transformer
| Pipeline "(string \<times> model) list"

text \<open>
  The series a logbook chapter hands out. The source compares a series with the scalar
  \<^verbatim>\<open>0.0\<close> by \<^verbatim>\<open>==\<close>, whose meaning depends on the series' run-time type: on a numpy
  array it is elementwise, on a Python list it is the single value \<^verbatim>\<open>False\<close> (a list
  never equals a float). \<^verbatim>\<open>chapters[...]\<close> and \<^verbatim>\<open>select(...)\<close> are the interface of DEAP's
  \<^verbatim>\<open>Logbook\<close>, whose \<^verbatim>\<open>select\<close> returns a Python list.
\<close>

datatype series = PyList "real list" | NdArray "real list"

datatype truth = PyBool bool | BoolArray "bool list"

fun eq_scalar :: "series \<Rightarrow> real \<Rightarrow> truth" where
  "eq_scalar (PyList xs) c = PyBool False"
| "eq_scalar (NdArray xs) c = BoolArray (map (\<lambda>x. x = c) xs)"

fun np_all :: "truth \<Rightarrow> bool" where
  "np_all (PyBool b) = b"
| "np_all (BoolArray bs) = list_all (\<lambda>b. b) bs"

record logbook =
  lb_str :: string
  gen :: series
  score_max :: series
  score_avg :: series
  test_max :: series
  test_avg :: series

text \<open>
  Modelled from the spec: \<^verbatim>\<open>GenensClassifier\<close> is not among the sources. A fitted
  estimator exposes its logbook and the ranked candidates, either as individuals
  carrying a fitness value or as the pipelines of those individuals.
\<close>

record individual =
  ind_pipeline :: model
  fitness_values :: string

record classifier =
  clf_logbook :: logbook
  best_individuals :: "individual list"

definition get_best_pipelines :: "classifier \<Rightarrow> model list" where
  "get_best_pipelines clf = map ind_pipeline (best_individuals clf)"

text \<open>The arguments the harness constructs the Evaluator and the Evolver with.\<close>

record evaluator_args =
  cv_k :: nat
  timeout_s :: "nat option"
  per_gen :: bool
  ev_sample_size :: real

record classifier_args =
  clf_n_jobs :: int
  clf_timeout :: "nat option"
  clf_evaluator :: evaluator_args
  clf_max_height :: nat

text \<open>
  What a dataset and a task of the catalog answer. Each external call has an outcome
  (an exception or a value) and a duration; both are given, since the catalog, the
  imputer, the Evolver and the scoring run are not part of the harness. An array stands
  as its shape (rows, columns); the labels, which the harness only passes on, are left
  out. \<open>get_data\<close> answers the raw features and the categorical indicator,
  \<open>fit_transform\<close> the imputed features.
\<close>

record dataset =
  dataset_name :: string
  get_data :: "exc + (int \<times> int) \<times> bool list"
  load_time :: nat
  fit_transform :: "exc + int \<times> int"

record task =
  task_id :: int
  get_dataset :: "exc + dataset"
  fit_time :: nat
  fit_result :: "exc + classifier"
  run_model_on_task :: "model \<Rightarrow> exc + string"
  eval_time :: nat

record catalog =
  get_study :: "exc + int list"
  get_task :: "int \<Rightarrow> exc + task"

text \<open>The content of a file the harness writes.\<close>

datatype protocol = Protocol nat | HIGHEST_PROTOCOL

datatype line = Line (get_label: string) (xdata: series) (ydata: series)

datatype content =
  Text string
| Figure "line list" "string list"
| Graph individual
| Pickle protocol model

text \<open>The calls that leave the process, in the order they are made.\<close>

datatype call =
  Get_study
| Get_task int
| Get_dataset int
| Get_data int
| Fit_transform int
| Fit int classifier_args
| Run_model int model
| To_filesystem string
| Mkdir string
| Open string

record state =
  dirs :: "string set"
  files :: "string \<rightharpoonup> content"
  stdout :: "string list"
  clock :: nat
  calls :: "call list"

type_synonym 'a io = "state \<Rightarrow> (exc + 'a) \<times> state"

definition return_io :: "'a \<Rightarrow> 'a io" where
  "return_io x st = (Inr x, st)"

definition raise_io :: "exc \<Rightarrow> 'a io" where
  "raise_io e st = (Inl e, st)"

definition bind_io :: "'a io \<Rightarrow> ('a \<Rightarrow> 'b io) \<Rightarrow> 'b io" where
  "bind_io m f st = (case m st of (Inl e, st') \<Rightarrow> (Inl e, st') | (Inr x, st') \<Rightarrow> f x st')"

text \<open>An external call: it is recorded, takes its time, and has its outcome.\<close>

definition external :: "call \<Rightarrow> nat \<Rightarrow> exc + 'a \<Rightarrow> 'a io" where
  "external c d outcome st = (outcome, st\<lparr>clock := clock st + d, calls := calls st @ [c]\<rparr>)"

definition time_time :: "nat io" where
  "time_time st = (Inr (clock st), st)"

definition print :: "string \<Rightarrow> unit io" where
  "print s st = (Inr (), st\<lparr>stdout := stdout st @ [s]\<rparr>)"

subsection \<open>Strings and paths\<close>

definition digit_char :: "nat \<Rightarrow> char" where
  "digit_char d = ''0123456789'' ! d"

fun str_nat :: "nat \<Rightarrow> string" where
  "str_nat n = (if n < 10 then [digit_char n] else str_nat (n div 10) @ [digit_char (n mod 10)])"

definition str_int :: "int \<Rightarrow> string" where
  "str_int i = (if i < 0 then CHR ''-'' # str_nat (nat (- i)) else str_nat (nat i))"

text \<open>
  Paths are compared as the strings they are. The parent of a path is what precedes
  its last slash; the empty path, \<^verbatim>\<open>.\<close> and \<^verbatim>\<open>/\<close> are directories that always exist.
\<close>

definition dirname :: "string \<Rightarrow> string" where
  "dirname p = rev (tl (dropWhile (\<lambda>c. c \<noteq> CHR ''/'') (rev p)))"

definition is_dir :: "state \<Rightarrow> string \<Rightarrow> bool" where
  "is_dir st p = (p = [] \<or> p = ''.'' \<or> p = ''/'' \<or> p \<in> dirs st)"

definition os_mkdir :: "string \<Rightarrow> unit io" where
  "os_mkdir p st =
     (let st1 = st\<lparr>calls := calls st @ [Mkdir p]\<rparr> in
      if is_dir st p \<or> files st p \<noteq> None then (Inl FileExistsError, st1)
      else if \<not> is_dir st (dirname p) then (Inl FileNotFoundError, st1)
      else (Inr (), st1\<lparr>dirs := insert p (dirs st)\<rparr>))"

text \<open>\<^verbatim>\<open>open(p, 'w+')\<close>: the file is created or truncated.\<close>

definition open_w :: "string \<Rightarrow> content \<Rightarrow> unit io" where
  "open_w p c st =
     (let st1 = st\<lparr>calls := calls st @ [Open p]\<rparr> in
      if is_dir st p then (Inl (OtherOSError ''IsADirectoryError''), st1)
      else if \<not> is_dir st (dirname p) then (Inl FileNotFoundError, st1)
      else (Inr (), st1\<lparr>files := (files st)(p \<mapsto> c)\<rparr>))"

text \<open>A \<^verbatim>\<open>write\<close> to a text file that is open.\<close>

definition file_write :: "string \<Rightarrow> string \<Rightarrow> unit io" where
  "file_write p s st =
     (Inr (), st\<lparr>files := (files st)(p \<mapsto>
        (case files st p of Some (Text t) \<Rightarrow> Text (t @ s) | _ \<Rightarrow> Text s))\<rparr>)"

subsection \<open>The evolution plot (\<^verbatim>\<open>genens/render/plot.py\<close>)\<close>

text \<open>\<^verbatim>\<open>plt.savefig\<close> writes the figure, with the lines drawn on it and its legend.\<close>

definition export_plot :: "classifier \<Rightarrow> string \<Rightarrow> unit io" where
  "export_plot estimator out_file =
     (let gen = gen (clf_logbook estimator);
          score_max = score_max (clf_logbook estimator);
          score_avg = score_avg (clf_logbook estimator);
          test_max = test_max (clf_logbook estimator);
          test_avg = test_avg (clf_logbook estimator);
          test_all_zero = (np_all (eq_scalar test_max 0.0) \<and> np_all (eq_scalar test_avg 0.0));
          line1 = [Line ''Maximum Score'' gen score_max];
          line2 = [Line ''Average Score'' gen score_avg];
          lines =
            (if test_all_zero then line1 @ line2
             else
               let line3 = [Line ''Maximum Test score'' gen test_max];
                   line4 = [Line ''Average Test score'' gen test_avg]
               in line1 @ line2 @ line3 @ line4);
          labels = map get_label lines
      in open_w out_file (Figure lines labels))"

subsection \<open>The harness (\<^verbatim>\<open>tests/run_openml.py\<close>)\<close>

text \<open>
  \<^verbatim>\<open>run.to_filesystem\<close> is recorded as a call; the score file is written by the
  harness itself.
\<close>

definition evaluate_pipeline :: "model \<Rightarrow> task \<Rightarrow> string \<Rightarrow> column_transformer option \<Rightarrow> unit io" where
  "evaluate_pipeline pipe task out_dir preprocessing =
     (let pipe = (case preprocessing of
                    None \<Rightarrow> pipe
                  | Some pre \<Rightarrow> Pipeline [(''Preprocessing'', Preprocessor pre), (''Pipeline'', pipe)])
      in
      bind_io (external (Run_model (task_id task) pipe) (eval_time task)
                 (run_model_on_task task pipe)) (\<lambda>score.
      bind_io (external (To_filesystem out_dir) 0 (Inr ())) (\<lambda>_.
      open_w (out_dir @ ''/accuracy-score.txt'') (Text (score @ ''\<newline>'')))))"

definition create_dir_check :: "string \<Rightarrow> bool io" where
  "create_dir_check out_dir st =
     (case os_mkdir out_dir st of
        (Inl e, st') \<Rightarrow>
          if e = FileExistsError then
            bind_io (print (''Test directory '' @ out_dir @ '' already exists.''))
              (\<lambda>_. return_io False) st'
          else if is_OSError e then
            bind_io (print ''\<newline>Cannot create test directory.'') (\<lambda>_. raise_io e) st'
          else (Inl e, st')
      | (Inr _, st') \<Rightarrow> (Inr True, st'))"

text \<open>
  Modelled from the spec: \<^verbatim>\<open>create_graph\<close> (\<^verbatim>\<open>genens/render/graph.py\<close>) is not among
  the sources; it renders the structural diagram of a candidate into the file.
\<close>

definition create_graph :: "individual \<Rightarrow> string \<Rightarrow> unit io" where
  "create_graph ind out_file = open_w out_file (Graph ind)"

fun log_individuals :: "string \<Rightarrow> (nat \<times> individual) list \<Rightarrow> unit io" where
  "log_individuals out_dir [] = return_io ()"
| "log_individuals out_dir ((i, ind) # rest) =
     bind_io (file_write (out_dir @ ''/ind-fitness.txt'')
                (''Individual '' @ str_nat i @ '': Score '' @ fitness_values ind @ ''\<newline>'')) (\<lambda>_.
     bind_io (create_graph ind (out_dir @ ''/graph'' @ str_nat i @ ''.png'')) (\<lambda>_.
     log_individuals out_dir rest))"

fun pickle_pipelines :: "string \<Rightarrow> (nat \<times> model) list \<Rightarrow> unit io" where
  "pickle_pipelines out_dir [] = return_io ()"
| "pickle_pipelines out_dir ((i, pipe) # rest) =
     bind_io (open_w (out_dir @ ''/pipeline'' @ str_nat i @ ''.pickle'')
                (Pickle HIGHEST_PROTOCOL pipe)) (\<lambda>_.
     pickle_pipelines out_dir rest)"

definition log_evolution :: "classifier \<Rightarrow> string \<Rightarrow> unit io" where
  "log_evolution fitted_clf out_dir =
     bind_io (open_w (out_dir @ ''/logbook.txt'')
                (Text (lb_str (clf_logbook fitted_clf) @ ''\<newline>''))) (\<lambda>_.
     bind_io (export_plot fitted_clf (out_dir @ ''/result.png'')) (\<lambda>_.
     bind_io (open_w (out_dir @ ''/ind-fitness.txt'') (Text [])) (\<lambda>_.
     bind_io (log_individuals out_dir (enumerate 0 (take 5 (best_individuals fitted_clf)))) (\<lambda>_.
     pickle_pipelines out_dir (enumerate 0 (take 5 (get_best_pipelines fitted_clf)))))))"

text \<open>
  \<^verbatim>\<open>Timeout(seconds, swallow_exc=False)\<close> around one external call: with a deadline
  that the call outlasts, \<^verbatim>\<open>TimeoutException\<close> is raised when the deadline has passed;
  otherwise the call has its own outcome, exceptions included.
\<close>

definition Timeout :: "nat option \<Rightarrow> call \<Rightarrow> nat \<Rightarrow> exc + 'a \<Rightarrow> 'a io" where
  "Timeout seconds c d outcome =
     (case seconds of
        None \<Rightarrow> external c d outcome
      | Some s \<Rightarrow> if s < d then external c s (Inl TimeoutException) else external c d outcome)"

text \<open>The loop of \<^verbatim>\<open>run_task\<close> over the best pipelines.\<close>

fun run_top_pipelines :: "task \<Rightarrow> string \<Rightarrow> column_transformer \<Rightarrow> (nat \<times> model) list \<Rightarrow> unit io" where
  "run_top_pipelines task out_dir imputer [] = return_io ()"
| "run_top_pipelines task out_dir imputer ((i, pipe) # rest) =
     (let pipe_dir = out_dir @ ''/run'' @ str_nat i in
      bind_io (create_dir_check pipe_dir) (\<lambda>_.
      bind_io (evaluate_pipeline pipe task pipe_dir (Some imputer)) (\<lambda>_.
      run_top_pipelines task out_dir imputer rest)))"

text \<open>
  The elapsed time is written in the clock's whole units; the source formats a float.
\<close>

definition run_task :: "task \<Rightarrow> string \<Rightarrow> int \<Rightarrow> nat option \<Rightarrow> nat option \<Rightarrow> unit io" where
  "run_task task out_dir n_jobs timeout task_timeout =
     bind_io (external (Get_dataset (task_id task)) 0 (get_dataset task)) (\<lambda>dataset.
     bind_io (external (Get_data (task_id task)) (load_time dataset) (get_data dataset))
       (\<lambda>(X, categorical).
     let imputer = conditional_imput X categorical in
     bind_io (external (Fit_transform (task_id task)) 0 (fit_transform dataset)) (\<lambda>shape.
     let sample_size = heuristic_sample_size (fst shape) (snd shape);
         evaluator = \<lparr>cv_k = 5, timeout_s = timeout, per_gen = False,
                      ev_sample_size = sample_size\<rparr>;
         clf = \<lparr>clf_n_jobs = n_jobs, clf_timeout = timeout, clf_evaluator = evaluator,
                clf_max_height = 8\<rparr>
     in
     bind_io time_time (\<lambda>start_time st.
       case Timeout task_timeout (Fit (task_id task) clf) (fit_time task) (fit_result task) st of
         (Inl e, st') \<Rightarrow>
           if e = TimeoutException then
             print (''Timeout - task '' @ str_int (task_id task) @ '' on dataset '' @
                    dataset_name dataset) st'
           else (Inl e, st')
       | (Inr fitted, st') \<Rightarrow>
           bind_io time_time (\<lambda>end_time.
           let elapsed_time = end_time - start_time in
           bind_io (open_w (out_dir @ ''/time.txt'')
                      (Text (''Elapsed time: '' @ str_nat elapsed_time @ ''\<newline>''))) (\<lambda>_.
           bind_io (log_evolution fitted out_dir) (\<lambda>_.
           run_top_pipelines task out_dir imputer
             (enumerate 0 (take 5 (get_best_pipelines fitted)))))) st'))))"

fun run_tests_loop ::
  "catalog \<Rightarrow> int list option \<Rightarrow> string \<Rightarrow> int \<Rightarrow> nat option \<Rightarrow> nat option \<Rightarrow> int list \<Rightarrow> unit io" where
  "run_tests_loop cat task_ids out_dir n_jobs timeout task_timeout [] = return_io ()"
| "run_tests_loop cat task_ids out_dir n_jobs timeout task_timeout (tid # rest) =
     (if task_ids \<noteq> None \<and> tid \<notin> set (the task_ids) then
        run_tests_loop cat task_ids out_dir n_jobs timeout task_timeout rest
      else
        bind_io (external (Get_task tid) 0 (get_task cat tid)) (\<lambda>task.
        bind_io (external (Get_dataset (task_id task)) 0 (get_dataset task)) (\<lambda>dataset.
        let dataset_dir = ''/'' @ dataset_name dataset in
        bind_io (create_dir_check dataset_dir) (\<lambda>created.
        if \<not> created then
          run_tests_loop cat task_ids out_dir n_jobs timeout task_timeout rest
        else
          bind_io (run_task task (out_dir @ dataset_dir) n_jobs timeout task_timeout) (\<lambda>_.
          run_tests_loop cat task_ids out_dir n_jobs timeout task_timeout rest)))))"

definition run_tests :: "catalog \<Rightarrow> int list option \<Rightarrow> string \<Rightarrow> int \<Rightarrow> nat option \<Rightarrow> nat option \<Rightarrow> unit io" where
  "run_tests cat task_ids out_dir n_jobs timeout task_timeout =
     bind_io (external Get_study 0 (get_study cat)) (\<lambda>benchmark_suite.
     run_tests_loop cat task_ids out_dir n_jobs timeout task_timeout benchmark_suite)"

subsection \<open>Notions the properties are stated with\<close>

text \<open>The arguments \<^verbatim>\<open>run_task\<close> constructs the Evolver with, for a transformed shape.\<close>

definition fit_args :: "int \<Rightarrow> nat option \<Rightarrow> int \<times> int \<Rightarrow> classifier_args" where
  "fit_args n_jobs timeout shape =
     \<lparr>clf_n_jobs = n_jobs, clf_timeout = timeout,
      clf_evaluator = \<lparr>cv_k = 5, timeout_s = timeout, per_gen = False,
                        ev_sample_size = heuristic_sample_size (fst shape) (snd shape)\<rparr>,
      clf_max_height = 8\<rparr>"

text \<open>
  The task identifiers fetched so far, and computations that remove no directory and
  fetch no task outside a given set.
\<close>

definition fetched :: "state \<Rightarrow> int set" where
  "fetched st = {t. Get_task t \<in> set (calls st)}"

definition frame :: "int set \<Rightarrow> 'a io \<Rightarrow> bool" where
  "frame S m = (\<forall>st. dirs st \<subseteq> dirs (snd (m st)) \<and> fetched (snd (m st)) \<subseteq> fetched st \<union> S)"

subsection \<open>A small world to run the harness in\<close>

text \<open>
  A catalog of two tasks. The fit of task 59 takes 50 units and the loading of its data
  100; the state has an output root \<^verbatim>\<open>results\<close> that already holds a directory
  \<^verbatim>\<open>iris\<close>.
\<close>

definition iris_classifier :: classifier where
  "iris_classifier =
     \<lparr>clf_logbook = \<lparr>lb_str = ''gen max avg'', gen = PyList [0, 1],
                      score_max = PyList [0.5, 0.6], score_avg = PyList [0.4, 0.5],
                      test_max = PyList [0, 0], test_avg = PyList [0, 0]\<rparr>,
      best_individuals = [\<lparr>ind_pipeline = Candidate 7, fitness_values = ''(0.9,)''\<rparr>]\<rparr>"

definition iris_dataset :: dataset where
  "iris_dataset =
     \<lparr>dataset_name = ''iris'', get_data = Inr ((150, 4), [False, False, False, True]),
      load_time = 100, fit_transform = Inr (150, 4)\<rparr>"

definition iris_task :: task where
  "iris_task =
     \<lparr>task_id = 59, get_dataset = Inr iris_dataset, fit_time = 50,
      fit_result = Inr iris_classifier, run_model_on_task = (\<lambda>_. Inr ''0.93''),
      eval_time = 3\<rparr>"

definition example_state :: state where
  "example_state =
     \<lparr>dirs = {''results'', ''results/iris''}, files = Map.empty, stdout = [], clock = 0,
      calls = []\<rparr>"

definition wine_task :: task where
  "wine_task =
     \<lparr>task_id = 60,
      get_dataset = Inr \<lparr>dataset_name = ''wine'', get_data = Inr ((178, 13), replicate 13 False),
                          load_time = 2, fit_transform = Inr (178, 13)\<rparr>,
      fit_time = 5, fit_result = Inr iris_classifier, run_model_on_task = (\<lambda>_. Inr ''0.97''),
      eval_time = 1\<rparr>"

definition example_catalog :: catalog where
  "example_catalog =
     \<lparr>get_study = Inr [59, 60],
      get_task = (\<lambda>t. if t = 59 then Inr iris_task else if t = 60 then Inr wine_task
                       else Inl (Error ''unknown task''))\<rparr>"

text \<open>An existing directory with no directory below it.\<close>

definition clear_dir :: "state \<Rightarrow> string \<Rightarrow> bool" where
  "clear_dir st d = (is_dir st d \<and> (\<forall>f. d @ CHR ''/'' # f \<notin> dirs st))"

text \<open>The example state on a second run, and a state with an empty output root.\<close>

definition rerun_state :: state where
  "rerun_state = example_state\<lparr>dirs := insert ''results/iris/run0'' (dirs example_state)\<rparr>"

definition fresh_state :: state where
  "fresh_state = example_state\<lparr>dirs := {''results''}\<rparr>"

text \<open>
  Pickle protocols, after the documentation of Python's \<^verbatim>\<open>pickle\<close> module: an
  interpreter is described by the highest protocol version it knows, it writes
  \<^verbatim>\<open>HIGHEST_PROTOCOL\<close> as that version, and it can load the versions up to it. A protocol
  is maximally compatible for a writer when every interpreter that can load any pickle
  the writer can produce can load one of this protocol.
\<close>

definition protocol_version :: "nat \<Rightarrow> protocol \<Rightarrow> nat" where
  "protocol_version highest p = (case p of Protocol v \<Rightarrow> v | HIGHEST_PROTOCOL \<Rightarrow> highest)"

definition can_load :: "nat \<Rightarrow> nat \<Rightarrow> bool" where
  "can_load highest v = (v \<le> highest)"

definition maximally_compatible :: "nat \<Rightarrow> protocol \<Rightarrow> bool" where
  "maximally_compatible writer p =
     (\<forall>reader v. v \<le> writer \<and> can_load reader v \<longrightarrow> can_load reader (protocol_version writer p))"

section \<open>Properties\<close>

subsection \<open>Computations, strings and paths\<close>

declare str_nat.simps [simp del]

lemma bind_io_Inr: "m st = (Inr x, st') \<Longrightarrow> bind_io m f st = f x st'"
  by (simp add: bind_io_def)

lemma bind_io_Inl: "m st = (Inl e, st') \<Longrightarrow> bind_io m f st = (Inl e, st')"
  by (simp add: bind_io_def)

lemma bind_io_return: "bind_io (return_io x) f = f x"
  by (rule ext) (simp add: bind_io_def return_io_def)

lemma bind_io_eq: "m st = (Inr x, st1) \<Longrightarrow> f x st1 = r \<Longrightarrow> bind_io m f st = r"
  by (simp add: bind_io_def)

lemma bind_io_external:
  "bind_io (external c d (Inr x)) f st = f x (st\<lparr>clock := clock st + d, calls := calls st @ [c]\<rparr>)"
  by (simp add: bind_io_def external_def)

lemma bind_io_external_Inl:
  "bind_io (external c d (Inl e)) f st = (Inl e, st\<lparr>clock := clock st + d, calls := calls st @ [c]\<rparr>)"
  by (simp add: bind_io_def external_def)

lemma bind_io_time_time: "bind_io time_time f st = f (clock st) st"
  by (simp add: bind_io_def time_time_def)

lemma digit_char_in: "d < 10 \<Longrightarrow> digit_char d \<in> set ''0123456789''"
  unfolding digit_char_def by (rule nth_mem) simp

lemma digit_char_inj: "i < 10 \<Longrightarrow> j < 10 \<Longrightarrow> digit_char i = digit_char j \<longleftrightarrow> i = j"
  unfolding digit_char_def by (rule nth_eq_iff_index_eq) simp_all

lemma str_nat_digit: "n < 10 \<Longrightarrow> str_nat n = [digit_char n]"
  by (simp add: str_nat.simps)

lemma str_nat_digit_inj: "i < 10 \<Longrightarrow> j < 10 \<Longrightarrow> str_nat i = str_nat j \<longleftrightarrow> i = j"
  by (simp add: str_nat_digit digit_char_inj)

lemma str_nat_digits: "set (str_nat n) \<subseteq> set ''0123456789''"
proof (induction n rule: str_nat.induct)
  case (1 n)
  show ?case
  proof (cases "n < 10")
    case True
    then show ?thesis using digit_char_in [of n] by (simp add: str_nat_digit)
  next
    case False
    have "n mod 10 < 10" by simp
    then have "digit_char (n mod 10) \<in> set ''0123456789''" by (rule digit_char_in)
    with False "1.IH" show ?thesis by (subst str_nat.simps) simp
  qed
qed

lemma str_nat_no_slash: "CHR ''/'' \<notin> set (str_nat n)"
  using str_nat_digits [of n] by auto

lemma str_int_59: "str_int 59 = ''59''"
  by (simp add: str_int_def str_nat.simps digit_char_def)

lemma dirname_join: "CHR ''/'' \<notin> set f \<Longrightarrow> dirname (d @ CHR ''/'' # f) = d"
proof -
  assume "CHR ''/'' \<notin> set f"
  then have "dropWhile (\<lambda>c. c \<noteq> CHR ''/'') (rev f @ CHR ''/'' # rev d) = CHR ''/'' # rev d"
    by (auto simp: dropWhile_append3)
  then show ?thesis by (simp add: dirname_def)
qed

lemma is_dir_calls [simp]: "is_dir (st\<lparr>calls := c\<rparr>) p = is_dir st p"
  by (simp add: is_dir_def)

lemma clear_dir_cong: "dirs st' = dirs st \<Longrightarrow> clear_dir st' d = clear_dir st d"
  by (simp add: clear_dir_def is_dir_def)

lemma clear_dir_upd [simp]:
  "clear_dir (st\<lparr>calls := c\<rparr>) d = clear_dir st d"
  "clear_dir (st\<lparr>files := f\<rparr>) d = clear_dir st d"
  by (simp_all add: clear_dir_def is_dir_def)

lemma open_w_ok:
  assumes "clear_dir st d" "CHR ''/'' \<notin> set f" "f \<noteq> []"
  shows "open_w (d @ CHR ''/'' # f) c st =
     (Inr (), st\<lparr>calls := calls st @ [Open (d @ CHR ''/'' # f)],
                  files := (files st)(d @ CHR ''/'' # f \<mapsto> c)\<rparr>)"
proof -
  have "d @ CHR ''/'' # f \<noteq> ''.''" "d @ CHR ''/'' # f \<noteq> ''/''"
    using assms(3) by (auto simp: append_eq_Cons_conv)
  then have "\<not> is_dir st (d @ CHR ''/'' # f)"
    using assms(1) by (simp add: is_dir_def clear_dir_def)
  moreover have "is_dir st (dirname (d @ CHR ''/'' # f))"
    using assms(1,2) by (simp add: dirname_join clear_dir_def)
  ultimately show ?thesis
    by (simp add: open_w_def Let_def)
qed

lemma open_w_ok_ex:
  assumes "clear_dir st d" "CHR ''/'' \<notin> set f" "f \<noteq> []"
  shows "\<exists>st1. open_w (d @ CHR ''/'' # f) c st = (Inr (), st1) \<and> clear_dir st1 d"
  using open_w_ok [OF assms, of c] assms(1) by simp

lemma open_w_pipeline:
  assumes "clear_dir st d"
  shows "open_w (d @ ''/pipeline'' @ str_nat i @ ''.pickle'') c st =
     (Inr (), st\<lparr>calls := calls st @ [Open (d @ ''/pipeline'' @ str_nat i @ ''.pickle'')],
                  files := (files st)(d @ ''/pipeline'' @ str_nat i @ ''.pickle'' \<mapsto> c)\<rparr>)"
  using open_w_ok [OF assms, of "''pipeline'' @ str_nat i @ ''.pickle''" c]
  by (simp add: str_nat_no_slash)

lemma open_w_graph:
  assumes "clear_dir st d"
  shows "open_w (d @ ''/graph'' @ str_nat i @ ''.png'') c st =
     (Inr (), st\<lparr>calls := calls st @ [Open (d @ ''/graph'' @ str_nat i @ ''.png'')],
                  files := (files st)(d @ ''/graph'' @ str_nat i @ ''.png'' \<mapsto> c)\<rparr>)"
  using open_w_ok [OF assms, of "''graph'' @ str_nat i @ ''.png''" c]
  by (simp add: str_nat_no_slash)

lemma file_write_ok: "\<exists>st1. file_write p s st = (Inr (), st1) \<and> dirs st1 = dirs st"
  by (simp add: file_write_def)

lemma create_dir_check_new:
  assumes "\<not> is_dir st p" "files st p = None" "is_dir st (dirname p)"
  shows "create_dir_check p st =
           (Inr True, st\<lparr>calls := calls st @ [Mkdir p], dirs := insert p (dirs st)\<rparr>)"
  using assms by (simp add: create_dir_check_def os_mkdir_def Let_def)

lemma create_dir_check_exists:
  assumes "is_dir st p \<or> files st p \<noteq> None"
  shows "create_dir_check p st =
           (Inr False, st\<lparr>calls := calls st @ [Mkdir p],
                           stdout := stdout st @ [''Test directory '' @ p @ '' already exists.'']\<rparr>)"
  using assms
  by (auto simp: create_dir_check_def os_mkdir_def Let_def bind_io_def print_def return_io_def)

lemma Timeout_cases:
  "Timeout seconds c d outcome st =
     (if (\<exists>s. seconds = Some s \<and> s < d)
      then (Inl TimeoutException, st\<lparr>clock := clock st + the seconds, calls := calls st @ [c]\<rparr>)
      else (outcome, st\<lparr>clock := clock st + d, calls := calls st @ [c]\<rparr>))"
  by (auto simp: Timeout_def external_def split: option.splits)

lemmas harness_defs =
  run_task_def bind_io_def external_def Timeout_def time_time_def open_w_def is_dir_def
  dirname_def log_evolution_def export_plot_def create_graph_def file_write_def
  create_dir_check_def os_mkdir_def evaluate_pipeline_def print_def return_io_def raise_io_def
  get_best_pipelines_def conditional_imput_def heuristic_sample_size_def
  str_nat.simps digit_char_def str_int_def Let_def run_tests_def

lemmas example_defs =
  iris_classifier_def iris_dataset_def iris_task_def wine_task_def example_catalog_def
  example_state_def

subsection \<open>Sample-size heuristic\<close>

text \<open>
  C4. The sample-size policy is a total function of the row count and the column
  count: it is 1.0 whenever the product is below 10000, whatever the two factors are,
  and otherwise the first match of the ordered rules on the row count and the column
  count; its value is always one of the seven fractions, all in (0, 1].
\<close>

theorem heuristic_sample_size_policy:
  "(n * m < 10000 \<longrightarrow> heuristic_sample_size n m = 1.0) \<and>
   (\<not> n * m < 10000 \<longrightarrow>
      heuristic_sample_size n m =
        (if n < 1000 then 0.5 else if n < 5000 then 0.25 else if n < 10000 then 0.1
         else if n < 20000 then 0.05 else if m < 10 then 0.02 else 0.01)) \<and>
   heuristic_sample_size n m \<in> {1.0, 0.5, 0.25, 0.1, 0.05, 0.02, 0.01} \<and>
   0 < heuristic_sample_size n m \<and> heuristic_sample_size n m \<le> 1"
  by (simp add: heuristic_sample_size_def Let_def)

theorem heuristic_sample_size_policy_witness:
  "heuristic_sample_size 3 2000 = 1.0 \<and> heuristic_sample_size 2000 3 = 1.0 \<and>
   heuristic_sample_size 900 20 = 0.5 \<and> heuristic_sample_size 1500 10 = 0.25 \<and>
   heuristic_sample_size 7000 10 = 0.1 \<and> heuristic_sample_size 15000 2 = 0.05 \<and>
   heuristic_sample_size 50000 3 = 0.02 \<and> heuristic_sample_size 50000 50 = 0.01 \<and>
   heuristic_sample_size (- 5) 7 = 1.0"
  using heuristic_sample_size_policy [of 3 2000] heuristic_sample_size_policy [of 2000 3]
    heuristic_sample_size_policy [of 900 20] heuristic_sample_size_policy [of 1500 10]
    heuristic_sample_size_policy [of 7000 10] heuristic_sample_size_policy [of 15000 2]
    heuristic_sample_size_policy [of 50000 3] heuristic_sample_size_policy [of 50000 50]
    heuristic_sample_size_policy [of "- 5" 7]
  by simp

subsection \<open>Conditional imputer\<close>

lemma enumerate_select:
  "[i. (i, val) \<leftarrow> enumerate n xs, P val] = [i \<leftarrow> [n..<n + length xs]. P (xs ! (i - n))]"
proof (induction xs arbitrary: n)
  case Nil
  then show ?case by simp
next
  case (Cons x xs)
  have tl: "[i \<leftarrow> [Suc n..<Suc n + length xs]. P ((x # xs) ! (i - n))]
        = [i \<leftarrow> [Suc n..<Suc n + length xs]. P (xs ! (i - Suc n))]"
    by (rule filter_cong) (auto simp: nth_Cons')
  have up: "[n..<n + length (x # xs)] = n # [Suc n..<Suc n + length xs]"
    by (subst upt_rec) simp
  show ?case
    unfolding up using Cons.IH [of "Suc n"] tl by simp
qed

text \<open>
  C7. Given the categorical mask, the selector splits the column indices into the
  numerical ones (mask False) and the categorical ones (mask True), each in increasing
  order, disjoint and together all the columns; the transformer it builds gives the
  numerical indices to the mean imputer and the categorical ones to the median imputer.
  For the mask [True, False, True] the numerical indices are [1] and the categorical
  ones [0, 2].
\<close>

theorem conditional_imput_partition:
  "\<exists>numerical_id categorical_id.
     conditional_imput X categorical =
       ColumnTransformer [(''mean_imputer'', SimpleImputer Mean, numerical_id),
                          (''median_imputer'', SimpleImputer Median, categorical_id)] \<and>
     numerical_id = [i \<leftarrow> [0..<length categorical]. \<not> categorical ! i] \<and>
     categorical_id = [i \<leftarrow> [0..<length categorical]. categorical ! i] \<and>
     sorted_wrt (<) numerical_id \<and> sorted_wrt (<) categorical_id \<and>
     set numerical_id \<inter> set categorical_id = {} \<and>
     set numerical_id \<union> set categorical_id = {..<length categorical}"
proof -
  have "sorted_wrt (<) [i \<leftarrow> [0..<length categorical]. P i]" for P
    by (rule sorted_wrt_filter) simp
  then show ?thesis
    by (auto simp: conditional_imput_def Let_def enumerate_select [where n = 0, simplified])
qed

theorem conditional_imput_partition_witness:
  "conditional_imput () [True, False, True] =
     ColumnTransformer [(''mean_imputer'', SimpleImputer Mean, [1]),
                        (''median_imputer'', SimpleImputer Median, [0, 2])]"
  using conditional_imput_partition [of "()" "[True, False, True]"]
  by (auto simp: upt_rec)

subsection \<open>The evolution plot\<close>

text \<open>
  C6, as the code has it on the lists a logbook's \<^verbatim>\<open>select\<close> returns: with every test
  score 0.0 the comparison \<^verbatim>\<open>test_max == 0.0\<close> is still \<^verbatim>\<open>False\<close>, and the plot has
  all four series.
\<close>

theorem export_plot_zero_lists:
  "test_max (clf_logbook iris_classifier) = PyList [0, 0] \<and>
   test_avg (clf_logbook iris_classifier) = PyList [0, 0] \<and>
   export_plot iris_classifier ''results/iris/result.png'' example_state =
     (Inr (), example_state\<lparr>calls := [Open ''results/iris/result.png''],
        files := [''results/iris/result.png'' \<mapsto>
          Figure [Line ''Maximum Score'' (PyList [0, 1]) (PyList [0.5, 0.6]),
                  Line ''Average Score'' (PyList [0, 1]) (PyList [0.4, 0.5]),
                  Line ''Maximum Test score'' (PyList [0, 1]) (PyList [0, 0]),
                  Line ''Average Test score'' (PyList [0, 1]) (PyList [0, 0])]
                 [''Maximum Score'', ''Average Score'', ''Maximum Test score'',
                  ''Average Test score'']]\<rparr>)"
  by (simp add: harness_defs example_defs)

text \<open>
  In general: on a Python list the test series are always drawn, whatever the scores;
  on numpy arrays they are drawn exactly when some test score is not zero.
\<close>

lemma export_plot_lists:
  assumes "test_max (clf_logbook clf) = PyList xs"
    "clear_dir st d" "CHR ''/'' \<notin> set f" "f \<noteq> []"
  shows "\<exists>lines labels. files (snd (export_plot clf (d @ CHR ''/'' # f) st)) (d @ CHR ''/'' # f) =
           Some (Figure lines labels) \<and> length lines = 4"
  using assms(1)
  by (simp add: export_plot_def Let_def open_w_ok [OF assms(2-4)])

lemma export_plot_arrays:
  assumes "test_max (clf_logbook clf) = NdArray xs" "test_avg (clf_logbook clf) = NdArray ys"
    "clear_dir st d" "CHR ''/'' \<notin> set f" "f \<noteq> []"
  shows "\<exists>lines labels. files (snd (export_plot clf (d @ CHR ''/'' # f) st)) (d @ CHR ''/'' # f) =
           Some (Figure lines labels) \<and>
         length lines = (if (\<forall>x \<in> set xs \<union> set ys. x = 0) then 2 else 4)"
  using assms(1,2)
  by (auto simp: export_plot_def Let_def open_w_ok [OF assms(3-5)] list_all_iff)

subsection \<open>The fit and its deadline\<close>

lemma run_task_until_fit:
  assumes "get_dataset task = Inr ds" "get_data ds = Inr (X, categorical)"
    "fit_transform ds = Inr shape"
  shows "run_task task out_dir n_jobs timeout task_timeout st =
     (let st1 = st\<lparr>clock := clock st + load_time ds,
                    calls := calls st @ [Get_dataset (task_id task), Get_data (task_id task),
                                         Fit_transform (task_id task)]\<rparr>
      in case Timeout task_timeout (Fit (task_id task) (fit_args n_jobs timeout shape))
                (fit_time task) (fit_result task) st1 of
         (Inl e, st') \<Rightarrow>
           if e = TimeoutException then
             print (''Timeout - task '' @ str_int (task_id task) @ '' on dataset '' @
                    dataset_name ds) st'
           else (Inl e, st')
       | (Inr fitted, st') \<Rightarrow>
           bind_io (open_w (out_dir @ ''/time.txt'')
                      (Text (''Elapsed time: '' @ str_nat (clock st' - clock st1) @ ''\<newline>''))) (\<lambda>_.
           bind_io (log_evolution fitted out_dir) (\<lambda>_.
           run_top_pipelines task out_dir (conditional_imput X categorical)
             (enumerate 0 (take 5 (get_best_pipelines fitted))))) st')"
  using assms
  by (simp add: run_task_def bind_io_external bind_io_time_time Let_def fit_args_def
      cong: sum.case_cong prod.case_cong)

lemma run_task_timeout_state:
  assumes "get_dataset task = Inr ds" "get_data ds = Inr (X, categorical)"
    "fit_transform ds = Inr shape" "s < fit_time task"
  shows "run_task task out_dir n_jobs timeout (Some s) st =
     (Inr (), st\<lparr>clock := clock st + load_time ds + s,
                  calls := calls st @ [Get_dataset (task_id task), Get_data (task_id task),
                    Fit_transform (task_id task),
                    Fit (task_id task) (fit_args n_jobs timeout shape)],
                  stdout := stdout st @ [''Timeout - task '' @ str_int (task_id task) @
                                         '' on dataset '' @ dataset_name ds]\<rparr>)"
  using assms(4)
  by (simp add: run_task_until_fit [OF assms(1-3)] Timeout_cases print_def Let_def)

text \<open>
  C5. When the bounded fit times out (the deadline passes, or the fit raises
  \<^verbatim>\<open>TimeoutException\<close> itself), \<^verbatim>\<open>run_task\<close> returns normally, has written no file and
  created no directory, has made no call after the fit, and has printed the diagnostic
  with the task's id and the dataset's name. Any other exception of the fit leaves
  \<^verbatim>\<open>run_task\<close> as it is, with nothing written and nothing printed.
\<close>

theorem run_task_fit_timeout:
  assumes "get_dataset task = Inr ds" "get_data ds = Inr (X, categorical)"
    "fit_transform ds = Inr shape"
  shows
    "(((\<exists>s. task_timeout = Some s \<and> s < fit_time task) \<or> fit_result task = Inl TimeoutException) \<longrightarrow>
        (\<exists>st'. run_task task out_dir n_jobs timeout task_timeout st = (Inr (), st') \<and>
           files st' = files st \<and> dirs st' = dirs st \<and>
           stdout st' = stdout st @ [''Timeout - task '' @ str_int (task_id task) @
                                     '' on dataset '' @ dataset_name ds] \<and>
           calls st' = calls st @ [Get_dataset (task_id task), Get_data (task_id task),
              Fit_transform (task_id task), Fit (task_id task) (fit_args n_jobs timeout shape)])) \<and>
     (\<not> (\<exists>s. task_timeout = Some s \<and> s < fit_time task) \<and> fit_result task = Inl e \<and>
        e \<noteq> TimeoutException \<longrightarrow>
        (\<exists>st'. run_task task out_dir n_jobs timeout task_timeout st = (Inl e, st') \<and>
           files st' = files st \<and> dirs st' = dirs st \<and> stdout st' = stdout st \<and>
           calls st' = calls st @ [Get_dataset (task_id task), Get_data (task_id task),
              Fit_transform (task_id task), Fit (task_id task) (fit_args n_jobs timeout shape)]))"
  by (auto simp: run_task_until_fit [OF assms] Timeout_cases print_def Let_def)

theorem run_task_fit_timeout_witness:
  "\<exists>st'. run_task iris_task ''results/iris'' 1 None (Some 10) example_state = (Inr (), st') \<and>
     files st' = Map.empty \<and> dirs st' = {''results'', ''results/iris''} \<and>
     stdout st' = [''Timeout - task 59 on dataset iris''] \<and>
     calls st' = [Get_dataset 59, Get_data 59, Fit_transform 59,
                  Fit 59 (fit_args 1 None (150, 4))]"
  using run_task_fit_timeout [of iris_task iris_dataset "(150, 4)"
      "[False, False, False, True]" "(150, 4)" "Some 10" "''results/iris''" 1 None example_state]
  by (simp add: iris_task_def iris_dataset_def example_state_def str_int_59)

text \<open>
  Against C1 as stated: with a deadline of 60, loading that takes 100 and a fit that
  takes 50, the deadline has passed before the fit starts, yet every stage runs, the
  artifacts are written and no diagnostic is printed.
\<close>

theorem task_timeout_counterexample:
  "\<exists>st'. run_task iris_task ''results/iris'' 1 None (Some 60) example_state = (Inr (), st') \<and>
     60 < load_time iris_dataset \<and> 60 < clock st' - clock example_state \<and>
     stdout st' = [] \<and>
     files st' ''results/iris/time.txt'' = Some (Text ''Elapsed time: 50\<newline>'') \<and>
     files st' ''results/iris/run0/accuracy-score.txt'' = Some (Text ''0.93\<newline>'')"
  by (simp add: harness_defs example_defs)

text \<open>
  C1, amended. The deadline \<^verbatim>\<open>task_timeout\<close> bounds the fit alone. When the fit
  outlasts it, \<^verbatim>\<open>run_task\<close> returns normally at the deadline, having printed the
  diagnostic with the task's id and the dataset's name and run no later stage (no
  call, no file); when the fit does not outlast it, \<^verbatim>\<open>run_task\<close> behaves as with no
  deadline at all, however long the other stages take.
\<close>

theorem task_timeout_bounds_fit_only:
  assumes "get_dataset task = Inr ds" "get_data ds = Inr (X, categorical)"
    "fit_transform ds = Inr shape"
  shows
    "(s < fit_time task \<longrightarrow>
        run_task task out_dir n_jobs timeout (Some s) st =
          (Inr (), st\<lparr>clock := clock st + load_time ds + s,
                  calls := calls st @ [Get_dataset (task_id task), Get_data (task_id task),
                    Fit_transform (task_id task),
                    Fit (task_id task) (fit_args n_jobs timeout shape)],
                  stdout := stdout st @ [''Timeout - task '' @ str_int (task_id task) @
                                         '' on dataset '' @ dataset_name ds]\<rparr>)) \<and>
     (fit_time task \<le> s \<longrightarrow>
        run_task task out_dir n_jobs timeout (Some s) st =
        run_task task out_dir n_jobs timeout None st)"
proof (intro conjI impI)
  assume "s < fit_time task"
  then show "run_task task out_dir n_jobs timeout (Some s) st =
          (Inr (), st\<lparr>clock := clock st + load_time ds + s,
                  calls := calls st @ [Get_dataset (task_id task), Get_data (task_id task),
                    Fit_transform (task_id task),
                    Fit (task_id task) (fit_args n_jobs timeout shape)],
                  stdout := stdout st @ [''Timeout - task '' @ str_int (task_id task) @
                                         '' on dataset '' @ dataset_name ds]\<rparr>)"
    by (rule run_task_timeout_state [OF assms])
next
  assume "fit_time task \<le> s"
  then have "Timeout (Some s) c (fit_time task) outcome = Timeout None c (fit_time task) outcome"
    for c and outcome :: "exc + classifier"
    by (simp add: Timeout_def)
  then show "run_task task out_dir n_jobs timeout (Some s) st =
        run_task task out_dir n_jobs timeout None st"
    by (simp add: run_task_def)
qed

theorem task_timeout_bounds_fit_only_witness:
  "run_task iris_task ''results/iris'' 1 None (Some 10) example_state =
     (Inr (), example_state\<lparr>clock := 110,
        calls := [Get_dataset 59, Get_data 59, Fit_transform 59,
                  Fit 59 (fit_args 1 None (150, 4))],
        stdout := [''Timeout - task 59 on dataset iris'']\<rparr>) \<and>
   run_task iris_task ''results/iris'' 1 None (Some 60) example_state =
   run_task iris_task ''results/iris'' 1 None None example_state"
  using task_timeout_bounds_fit_only [of iris_task iris_dataset "(150, 4)"
      "[False, False, False, True]" "(150, 4)" 10 "''results/iris''" 1 None example_state]
    task_timeout_bounds_fit_only [of iris_task iris_dataset "(150, 4)"
      "[False, False, False, True]" "(150, 4)" 60 "''results/iris''" 1 None example_state]
  by (simp add: iris_task_def iris_dataset_def example_state_def str_int_59)

subsection \<open>Recording the evolution\<close>

lemma pickle_pipelines_ok:
  assumes "clear_dir st d" "k + length ps \<le> 10"
  shows "\<exists>st'. pickle_pipelines d (enumerate k ps) st = (Inr (), st') \<and> dirs st' = dirs st \<and>
     (\<forall>j < length ps. files st' (d @ ''/pipeline'' @ str_nat (k + j) @ ''.pickle'') =
         Some (Pickle HIGHEST_PROTOCOL (ps ! j))) \<and>
     (\<forall>i < k. files st' (d @ ''/pipeline'' @ str_nat i @ ''.pickle'') =
         files st (d @ ''/pipeline'' @ str_nat i @ ''.pickle''))"
  using assms
proof (induction ps arbitrary: k st)
  case Nil
  then show ?case by (simp add: return_io_def)
next
  case (Cons p ps)
  let ?pp = "\<lambda>i. d @ ''/pipeline'' @ str_nat i @ ''.pickle''"
  let ?st1 = "st\<lparr>calls := calls st @ [Open (?pp k)],
                 files := (files st)(?pp k \<mapsto> Pickle HIGHEST_PROTOCOL p)\<rparr>"
  have o: "open_w (?pp k) (Pickle HIGHEST_PROTOCOL p) st = (Inr (), ?st1)"
    by (rule open_w_pipeline [OF Cons.prems(1)])
  have c1: "clear_dir ?st1 d"
    using Cons.prems(1) by simp
  from Cons.prems(2) have k: "Suc k + length ps \<le> 10" by simp
  from Cons.IH [OF c1 k] obtain st' where
    r: "pickle_pipelines d (enumerate (Suc k) ps) ?st1 = (Inr (), st')"
    and ds: "dirs st' = dirs ?st1"
    and fs: "\<And>j. j < length ps \<Longrightarrow> files st' (?pp (Suc k + j)) = Some (Pickle HIGHEST_PROTOCOL (ps ! j))"
    and fr: "\<And>i. i < Suc k \<Longrightarrow> files st' (?pp i) = files ?st1 (?pp i)"
    by blast
  have run: "pickle_pipelines d (enumerate k (p # ps)) st = (Inr (), st')"
    by (simp only: enumerate_simps pickle_pipelines.simps) (rule bind_io_eq, rule o, rule r)
  have new: "files st' (?pp (k + j)) = Some (Pickle HIGHEST_PROTOCOL ((p # ps) ! j))"
    if "j < length (p # ps)" for j
  proof (cases j)
    case 0
    then show ?thesis using fr [of k] by simp
  next
    case (Suc j')
    with that fs [of j'] show ?thesis by simp
  qed
  have old: "files st' (?pp i) = files st (?pp i)" if "i < k" for i
  proof -
    from that Cons.prems(2) have "str_nat i \<noteq> str_nat k"
      by (simp add: str_nat_digit_inj)
    then have "?pp i \<noteq> ?pp k" by simp
    with fr [of i] that show ?thesis by simp
  qed
  from run ds new old show ?case by simp
qed

lemma log_individuals_ok:
  assumes "clear_dir st d"
  shows "\<exists>st'. log_individuals d xs st = (Inr (), st') \<and> dirs st' = dirs st"
  using assms
proof (induction xs arbitrary: st)
  case Nil
  then show ?case by (simp add: return_io_def)
next
  case (Cons x xs)
  obtain i ind where x: "x = (i, ind)" by (cases x)
  obtain st1 where w: "file_write (d @ ''/ind-fitness.txt'')
      (''Individual '' @ str_nat i @ '': Score '' @ fitness_values ind @ ''\<newline>'') st = (Inr (), st1)"
    and d1: "dirs st1 = dirs st"
    using file_write_ok by blast
  have c1: "clear_dir st1 d"
    using Cons.prems d1 by (simp add: clear_dir_def is_dir_def)
  let ?st2 = "st1\<lparr>calls := calls st1 @ [Open (d @ ''/graph'' @ str_nat i @ ''.png'')],
       files := (files st1)(d @ ''/graph'' @ str_nat i @ ''.png'' \<mapsto> Graph ind)\<rparr>"
  have g: "create_graph ind (d @ ''/graph'' @ str_nat i @ ''.png'') st1 = (Inr (), ?st2)"
    unfolding create_graph_def by (rule open_w_graph [OF c1])
  have c2: "clear_dir ?st2 d" using c1 by simp
  from Cons.IH [OF c2] obtain st' where
    r: "log_individuals d xs ?st2 = (Inr (), st')" and d2: "dirs st' = dirs ?st2"
    by blast
  have "log_individuals d (x # xs) st = (Inr (), st')"
    unfolding x
    by (simp only: log_individuals.simps) (rule bind_io_eq, rule w, rule bind_io_eq, rule g, rule r)
  with d2 d1 show ?case by simp
qed

text \<open>
  C9, amended. In a directory that exists and has no directory below it,
  \<^verbatim>\<open>_log_evolution\<close> succeeds, and for every rank i below 5 and below the number of
  pipelines returned, the file \<^verbatim>\<open>pipeline{i}.pickle\<close> holds the i-th pipeline itself,
  pickled with \<^verbatim>\<open>HIGHEST_PROTOCOL\<close>.
\<close>

theorem log_evolution_pickles:
  assumes "clear_dir st out_dir"
  shows "\<exists>st'. log_evolution fitted_clf out_dir st = (Inr (), st') \<and>
     (\<forall>i < min 5 (length (get_best_pipelines fitted_clf)).
        files st' (out_dir @ ''/pipeline'' @ str_nat i @ ''.pickle'') =
          Some (Pickle HIGHEST_PROTOCOL (get_best_pipelines fitted_clf ! i)))"
proof -
  obtain st1 where 1: "open_w (out_dir @ ''/logbook.txt'')
      (Text (lb_str (clf_logbook fitted_clf) @ ''\<newline>'')) st = (Inr (), st1)"
    and c1: "clear_dir st1 out_dir"
    using open_w_ok_ex [OF assms, of "''logbook.txt''"] by auto
  obtain st2 where 2: "export_plot fitted_clf (out_dir @ ''/result.png'') st1 = (Inr (), st2)"
    and c2: "clear_dir st2 out_dir"
    unfolding export_plot_def Let_def
    using open_w_ok_ex [OF c1, of "''result.png''"] by auto
  obtain st3 where 3: "open_w (out_dir @ ''/ind-fitness.txt'') (Text []) st2 = (Inr (), st3)"
    and c3: "clear_dir st3 out_dir"
    using open_w_ok_ex [OF c2, of "''ind-fitness.txt''"] by auto
  obtain st4 where 4: "log_individuals out_dir
      (enumerate 0 (take 5 (best_individuals fitted_clf))) st3 = (Inr (), st4)"
    and d4: "dirs st4 = dirs st3"
    using log_individuals_ok [OF c3] by blast
  from c3 d4 have c4: "clear_dir st4 out_dir"
    by (simp add: clear_dir_def is_dir_def)
  let ?ps = "take 5 (get_best_pipelines fitted_clf)"
  have "0 + length ?ps \<le> 10" by simp
  from pickle_pipelines_ok [OF c4 this] obtain st' where
    5: "pickle_pipelines out_dir (enumerate 0 ?ps) st4 = (Inr (), st')"
    and fs: "\<And>j. j < length ?ps \<Longrightarrow>
        files st' (out_dir @ ''/pipeline'' @ str_nat (0 + j) @ ''.pickle'') =
          Some (Pickle HIGHEST_PROTOCOL (?ps ! j))"
    by blast
  have "log_evolution fitted_clf out_dir st = (Inr (), st')"
    unfolding log_evolution_def
    by (rule bind_io_eq, rule 1, rule bind_io_eq, rule 2, rule bind_io_eq, rule 3,
        rule bind_io_eq, rule 4, rule 5)
  moreover have "files st' (out_dir @ ''/pipeline'' @ str_nat i @ ''.pickle'') =
          Some (Pickle HIGHEST_PROTOCOL (get_best_pipelines fitted_clf ! i))"
    if "i < min 5 (length (get_best_pipelines fitted_clf))" for i
    using fs [of i] that by simp
  ultimately show ?thesis by blast
qed

theorem log_evolution_pickles_witness:
  "\<exists>st'. log_evolution iris_classifier ''results/iris'' example_state = (Inr (), st') \<and>
     files st' ''results/iris/pipeline0.pickle'' = Some (Pickle HIGHEST_PROTOCOL (Candidate 7))"
proof -
  have "clear_dir example_state ''results/iris''"
    by (simp add: clear_dir_def is_dir_def example_state_def)
  from log_evolution_pickles [OF this, of iris_classifier] obtain st' where
    "log_evolution iris_classifier ''results/iris'' example_state = (Inr (), st')"
    "\<And>i. i < min 5 (length (get_best_pipelines iris_classifier)) \<Longrightarrow>
       files st' (''results/iris'' @ ''/pipeline'' @ str_nat i @ ''.pickle'') =
          Some (Pickle HIGHEST_PROTOCOL (get_best_pipelines iris_classifier ! i))"
    by blast
  from this(1) this(2) [of 0] show ?thesis
    by (simp add: get_best_pipelines_def iris_classifier_def str_nat_digit digit_char_def)
qed

text \<open>
  Against C9 as stated: the protocol written is the newest one of the running Python,
  which an older interpreter cannot load although it could load a pickle of a lower
  protocol; and with a single candidate returned there is a single pickle file.
\<close>

theorem log_evolution_protocol_counterexample:
  "\<not> maximally_compatible 5 HIGHEST_PROTOCOL \<and>
   (\<exists>st'. log_evolution iris_classifier ''results/iris'' example_state = (Inr (), st') \<and>
      files st' ''results/iris/pipeline0.pickle'' = Some (Pickle HIGHEST_PROTOCOL (Candidate 7)) \<and>
      files st' ''results/iris/pipeline1.pickle'' = None)"
proof
  have "4 \<le> (5::nat) \<and> can_load 4 4 \<and> \<not> can_load 4 (protocol_version 5 HIGHEST_PROTOCOL)"
    by (simp add: can_load_def protocol_version_def)
  then show "\<not> maximally_compatible 5 HIGHEST_PROTOCOL"
    unfolding maximally_compatible_def by blast
  show "\<exists>st'. log_evolution iris_classifier ''results/iris'' example_state = (Inr (), st') \<and>
      files st' ''results/iris/pipeline0.pickle'' = Some (Pickle HIGHEST_PROTOCOL (Candidate 7)) \<and>
      files st' ''results/iris/pipeline1.pickle'' = None"
    by (simp add: harness_defs example_defs)
qed

subsection \<open>Re-evaluating the best pipelines\<close>

text \<open>
  C2, as the code has it: \<^verbatim>\<open>run_task\<close> drops the answer of \<^verbatim>\<open>_create_dir_check\<close>. With
  \<^verbatim>\<open>run0\<close> already there, the collision is printed and the candidate is evaluated all
  the same: the scoring run is made and the score file is written into the existing
  directory.
\<close>

theorem run_task_existing_run_dir:
  "\<exists>st'. run_task iris_task ''results/iris'' 1 None None rerun_state = (Inr (), st') \<and>
     ''results/iris/run0'' \<in> dirs rerun_state \<and>
     stdout st' = [''Test directory results/iris/run0 already exists.''] \<and>
     Run_model 59 (Pipeline [(''Preprocessing'',
         Preprocessor (conditional_imput ((150, 4) :: int \<times> int) [False, False, False, True])),
         (''Pipeline'', Candidate 7)]) \<in> set (calls st') \<and>
     To_filesystem ''results/iris/run0'' \<in> set (calls st') \<and>
     files rerun_state ''results/iris/run0/accuracy-score.txt'' = None \<and>
     files st' ''results/iris/run0/accuracy-score.txt'' = Some (Text ''0.93\<newline>'')"
  by (simp add: harness_defs example_defs rerun_state_def)

subsection \<open>What no computation of the harness does\<close>

lemma frame_return: "frame S (return_io x)"
  by (simp add: frame_def return_io_def)

lemma frame_raise: "frame S (raise_io e)"
  by (simp add: frame_def raise_io_def)

lemma frame_print: "frame S (print s)"
  by (simp add: frame_def print_def fetched_def)

lemma frame_time_time: "frame S time_time"
  by (simp add: frame_def time_time_def)

lemma frame_external: "(\<And>t. c \<noteq> Get_task t) \<Longrightarrow> frame S (external c d outcome)"
  by (auto simp: frame_def external_def fetched_def)

lemma frame_external_Get_task: "t \<in> S \<Longrightarrow> frame S (external (Get_task t) d outcome)"
  by (auto simp: frame_def external_def fetched_def)

lemma frame_Timeout: "(\<And>t. c \<noteq> Get_task t) \<Longrightarrow> frame S (Timeout seconds c d outcome)"
  by (auto simp: frame_def Timeout_cases fetched_def)

lemma frame_os_mkdir: "frame S (os_mkdir p)"
  by (auto simp: frame_def os_mkdir_def fetched_def Let_def)

lemma frame_open_w: "frame S (open_w p c)"
  by (auto simp: frame_def open_w_def fetched_def Let_def)

lemma frame_file_write: "frame S (file_write p s)"
  by (auto simp: frame_def file_write_def fetched_def)

lemma frame_handle:
  assumes "frame S m" "\<And>e. frame S (h e)" "\<And>x. frame S (k x)"
  shows "frame S (\<lambda>st. case m st of (Inl e, st') \<Rightarrow> h e st' | (Inr x, st') \<Rightarrow> k x st')"
  unfolding frame_def
proof (intro allI)
  fix st
  obtain r st' where m: "m st = (r, st')" by (cases "m st")
  from assms(1) have "dirs st \<subseteq> dirs (snd (m st))" "fetched (snd (m st)) \<subseteq> fetched st \<union> S"
    by (simp_all add: frame_def)
  with m have 1: "dirs st \<subseteq> dirs st'" "fetched st' \<subseteq> fetched st \<union> S"
    by simp_all
  show "dirs st \<subseteq> dirs (snd (case m st of (Inl e, st') \<Rightarrow> h e st' | (Inr x, st') \<Rightarrow> k x st')) \<and>
        fetched (snd (case m st of (Inl e, st') \<Rightarrow> h e st' | (Inr x, st') \<Rightarrow> k x st'))
          \<subseteq> fetched st \<union> S"
  proof (cases r)
    case (Inl e)
    from assms(2) [of e] have "dirs st' \<subseteq> dirs (snd (h e st'))"
      "fetched (snd (h e st')) \<subseteq> fetched st' \<union> S"
      by (auto simp: frame_def)
    with 1 m Inl show ?thesis by auto
  next
    case (Inr x)
    from assms(3) [of x] have "dirs st' \<subseteq> dirs (snd (k x st'))"
      "fetched (snd (k x st')) \<subseteq> fetched st' \<union> S"
      by (auto simp: frame_def)
    with 1 m Inr show ?thesis by auto
  qed
qed

lemma frame_bind:
  assumes "frame S m" "\<And>x. frame S (f x)"
  shows "frame S (bind_io m f)"
proof -
  have "frame S (\<lambda>st. case m st of (Inl e, st') \<Rightarrow> raise_io e st' | (Inr x, st') \<Rightarrow> f x st')"
    using assms by (intro frame_handle frame_raise)
  moreover have "bind_io m f =
      (\<lambda>st. case m st of (Inl e, st') \<Rightarrow> raise_io e st' | (Inr x, st') \<Rightarrow> f x st')"
    by (rule ext) (simp add: bind_io_def raise_io_def split: prod.splits sum.splits)
  ultimately show ?thesis by simp
qed

lemma frame_case_prod: "(\<And>a b. frame S (f a b)) \<Longrightarrow> frame S (case_prod f p)"
  by (cases p) simp

lemma frame_mono: "frame S m \<Longrightarrow> S \<subseteq> T \<Longrightarrow> frame T m"
  by (fastforce simp: frame_def)

lemma frame_create_dir_check: "frame S (create_dir_check p)"
proof -
  have "create_dir_check p =
    (\<lambda>st. case os_mkdir p st of
        (Inl e, st') \<Rightarrow>
          (if e = FileExistsError then
             bind_io (print (''Test directory '' @ p @ '' already exists.'')) (\<lambda>_. return_io False)
           else if is_OSError e then
             bind_io (print ''\<newline>Cannot create test directory.'') (\<lambda>_. raise_io e)
           else raise_io e) st'
      | (Inr x, st') \<Rightarrow> return_io True st')"
    by (rule ext) (simp add: create_dir_check_def raise_io_def return_io_def
        split: prod.splits sum.splits)
  then show ?thesis
    by (simp only:) (intro frame_handle frame_os_mkdir, auto intro!: frame_bind frame_print frame_return frame_raise)
qed

lemma frame_export_plot: "frame S (export_plot clf p)"
  by (simp add: export_plot_def Let_def frame_open_w)

lemma frame_evaluate_pipeline: "frame S (evaluate_pipeline pipe task out_dir pre)"
  by (auto simp: evaluate_pipeline_def Let_def intro!: frame_bind frame_external frame_open_w)

lemma frame_log_individuals: "frame S (log_individuals out_dir xs)"
  by (induction xs) (auto simp: create_graph_def intro!: frame_bind frame_return frame_file_write frame_open_w)

lemma frame_pickle_pipelines: "frame S (pickle_pipelines out_dir xs)"
  by (induction xs) (auto intro!: frame_bind frame_return frame_open_w)

lemma frame_log_evolution: "frame S (log_evolution clf out_dir)"
  unfolding log_evolution_def
  by (intro frame_bind frame_open_w frame_export_plot frame_log_individuals frame_pickle_pipelines)

lemma frame_run_top_pipelines: "frame S (run_top_pipelines task out_dir imputer xs)"
  by (induction xs)
    (auto simp: Let_def intro!: frame_bind frame_return frame_create_dir_check frame_evaluate_pipeline)

lemma frame_run_task: "frame S (run_task task out_dir n_jobs timeout task_timeout)"
  unfolding run_task_def Let_def
  apply (rule frame_bind, rule frame_external, simp)
  apply (rule frame_bind, rule frame_external, simp)
  apply (rule frame_case_prod)
  apply (rule frame_bind, rule frame_external, simp)
  apply (rule frame_bind, rule frame_time_time)
  apply (rule frame_handle)
    apply (rule frame_Timeout, simp)
   apply (simp add: frame_def print_def fetched_def)
  apply (intro frame_bind frame_time_time frame_open_w frame_log_evolution frame_run_top_pipelines)
  done

lemma frame_run_tests_loop:
  "frame {t \<in> set suite. \<forall>ids. task_ids = Some ids \<longrightarrow> t \<in> set ids}
     (run_tests_loop cat task_ids out_dir n_jobs timeout task_timeout suite)"
proof (induction suite)
  case Nil
  show ?case by (simp add: frame_return)
next
  case (Cons t suite)
  let ?S = "{u \<in> set (t # suite). \<forall>ids. task_ids = Some ids \<longrightarrow> u \<in> set ids}"
  have rest: "frame ?S (run_tests_loop cat task_ids out_dir n_jobs timeout task_timeout suite)"
    by (rule frame_mono [OF Cons.IH]) auto
  show ?case
  proof (cases "task_ids \<noteq> None \<and> t \<notin> set (the task_ids)")
    case True
    then show ?thesis using rest by simp
  next
    case False
    then have "t \<in> ?S" by auto
    then have "frame ?S (external (Get_task t) 0 (get_task cat t))"
      by (rule frame_external_Get_task)
    with False rest show ?thesis
      by (auto simp: Let_def simp del: run_tests_loop.simps
          simp add: run_tests_loop.simps(2) [of cat task_ids out_dir n_jobs timeout task_timeout t suite]
          intro!: frame_bind frame_external frame_create_dir_check frame_run_task)
  qed
qed

lemma frame_run_tests:
  "frame {t. \<forall>ids. task_ids = Some ids \<longrightarrow> t \<in> set ids}
     (run_tests cat task_ids out_dir n_jobs timeout task_timeout)"
  unfolding run_tests_def
  by (intro frame_bind frame_external frame_mono [OF frame_run_tests_loop]) auto

subsection \<open>The orchestrator\<close>

lemma run_tests_loop_filter:
  "run_tests_loop cat (Some ids) out_dir n_jobs timeout task_timeout suite =
   run_tests_loop cat (Some ids) out_dir n_jobs timeout task_timeout [t \<leftarrow> suite. t \<in> set ids]"
proof (induction suite)
  case Nil
  show ?case by simp
next
  case (Cons t suite)
  show ?case
  proof (cases "t \<in> set ids")
    case True
    then show ?thesis by (simp add: Cons.IH Let_def cong: if_cong)
  next
    case False
    then show ?thesis by (simp add: Cons.IH)
  qed
qed

text \<open>
  C8. With an explicit subset of task identifiers, the run is the run over the suite
  with the absent identifiers removed: an absent identifier contributes no call, no
  file-system operation, no output and no time. In particular no task outside the
  subset is fetched. For the suite [59, 60] and the subset [59], the run is the loop
  over [59] alone and only 59 is fetched.
\<close>

theorem run_tests_skips_absent:
  "run_tests cat (Some ids) out_dir n_jobs timeout task_timeout st =
     bind_io (external Get_study 0 (get_study cat)) (\<lambda>benchmark_suite.
       run_tests_loop cat (Some ids) out_dir n_jobs timeout task_timeout
         [t \<leftarrow> benchmark_suite. t \<in> set ids]) st \<and>
   fetched (snd (run_tests cat (Some ids) out_dir n_jobs timeout task_timeout st))
     \<subseteq> fetched st \<union> set ids"
proof
  show "run_tests cat (Some ids) out_dir n_jobs timeout task_timeout st =
     bind_io (external Get_study 0 (get_study cat)) (\<lambda>benchmark_suite.
       run_tests_loop cat (Some ids) out_dir n_jobs timeout task_timeout
         [t \<leftarrow> benchmark_suite. t \<in> set ids]) st"
  proof -
    have "run_tests_loop cat (Some ids) out_dir n_jobs timeout task_timeout =
        (\<lambda>benchmark_suite. run_tests_loop cat (Some ids) out_dir n_jobs timeout task_timeout
           [t \<leftarrow> benchmark_suite. t \<in> set ids])"
      by (rule ext) (rule run_tests_loop_filter)
    then show ?thesis
      unfolding run_tests_def
      by (rule arg_cong [of _ _ "\<lambda>h. bind_io (external Get_study 0 (get_study cat)) h st"])
  qed
  have "frame {t. \<forall>ids'. Some ids = Some ids' \<longrightarrow> t \<in> set ids'}
          (run_tests cat (Some ids) out_dir n_jobs timeout task_timeout)"
    by (rule frame_run_tests)
  then show "fetched (snd (run_tests cat (Some ids) out_dir n_jobs timeout task_timeout st))
     \<subseteq> fetched st \<union> set ids"
    by (auto simp: frame_def)
qed

theorem run_tests_skips_absent_witness:
  "run_tests example_catalog (Some [59]) ''results'' 1 None None example_state =
     run_tests_loop example_catalog (Some [59]) ''results'' 1 None None [59]
       (example_state\<lparr>calls := [Get_study]\<rparr>) \<and>
   fetched (snd (run_tests example_catalog (Some [59]) ''results'' 1 None None example_state))
     \<subseteq> {59}"
proof -
  have cat: "get_study example_catalog = Inr [59, 60]"
    by (simp add: example_catalog_def)
  have st: "example_state\<lparr>clock := clock example_state + 0, calls := calls example_state @ [Get_study]\<rparr>
      = example_state\<lparr>calls := [Get_study]\<rparr>" "fetched example_state = {}"
    by (simp_all add: example_state_def fetched_def)
  note inst = run_tests_skips_absent [of example_catalog "[59]" "''results''" 1 None None example_state]
  show ?thesis
  proof
    from inst [THEN conjunct1]
    show "run_tests example_catalog (Some [59]) ''results'' 1 None None example_state =
      run_tests_loop example_catalog (Some [59]) ''results'' 1 None None [59]
       (example_state\<lparr>calls := [Get_study]\<rparr>)"
      unfolding cat bind_io_external st by simp
    from inst [THEN conjunct2]
    show "fetched (snd (run_tests example_catalog (Some [59]) ''results'' 1 None None example_state))
      \<subseteq> {59}"
      unfolding st by simp
  qed
qed

text \<open>
  C3, as the code has it: the orchestrator checks and creates \<^verbatim>\<open>/iris\<close>, at the root of
  the file system, and hands \<^verbatim>\<open>run_task\<close> the directory \<^verbatim>\<open>results/iris\<close>, which nobody
  creates. On an empty output root the fit runs and the first artifact cannot be
  written.
\<close>

theorem run_tests_directory_mismatch:
  "\<exists>st'. run_tests example_catalog (Some [59]) ''results'' 1 None None fresh_state =
            (Inl FileNotFoundError, st') \<and>
     dirs fresh_state = {''results''} \<and> dirs st' = {''/iris'', ''results''} \<and>
     files st' = Map.empty \<and>
     calls st' = [Get_study, Get_task 59, Get_dataset 59, Mkdir ''/iris'', Get_dataset 59,
                  Get_data 59, Fit_transform 59, Fit 59 (fit_args 1 None (150, 4)),
                  Open ''results/iris/time.txt'']"
  by (simp add: harness_defs example_defs fresh_state_def fit_args_def insert_commute)

lemma run_tests_loop_timeout:
  assumes "get_task cat tid = Inr task" "get_dataset task = Inr ds"
    "get_data ds = Inr (X, categorical)" "fit_transform ds = Inr shape" "s < fit_time task"
    "\<forall>ids. task_ids = Some ids \<longrightarrow> tid \<in> set ids"
    "CHR ''/'' \<notin> set (dataset_name ds)"
    "\<not> is_dir st (''/'' @ dataset_name ds)" "files st (''/'' @ dataset_name ds) = None"
  shows "run_tests_loop cat task_ids out_dir n_jobs timeout (Some s) (tid # rest) st =
     run_tests_loop cat task_ids out_dir n_jobs timeout (Some s) rest
       (st\<lparr>dirs := insert (''/'' @ dataset_name ds) (dirs st),
            clock := clock st + load_time ds + s,
            calls := calls st @ [Get_task tid, Get_dataset (task_id task),
                    Mkdir (''/'' @ dataset_name ds),
                    Get_dataset (task_id task), Get_data (task_id task),
                    Fit_transform (task_id task),
                    Fit (task_id task) (fit_args n_jobs timeout shape)],
            stdout := stdout st @ [''Timeout - task '' @ str_int (task_id task) @
                                   '' on dataset '' @ dataset_name ds]\<rparr>)"
proof -
  have sel: "\<not> (task_ids \<noteq> None \<and> tid \<notin> set (the task_ids))"
    using assms(6) by (cases task_ids) auto
  have "dirname (''/'' @ dataset_name ds) = []"
    using dirname_join [OF assms(7), of "[]"] by simp
  then have par: "is_dir (st\<lparr>calls := calls st @ [Get_task tid, Get_dataset (task_id task)]\<rparr>)
      (dirname (''/'' @ dataset_name ds))"
    by (simp add: is_dir_def)
  have new: "create_dir_check (''/'' @ dataset_name ds)
       (st\<lparr>calls := calls st @ [Get_task tid, Get_dataset (task_id task)]\<rparr>) =
     (Inr True, st\<lparr>calls := calls st @ [Get_task tid, Get_dataset (task_id task),
                                Mkdir (''/'' @ dataset_name ds)],
                     dirs := insert (''/'' @ dataset_name ds) (dirs st)\<rparr>)"
    using create_dir_check_new [OF _ _ par] assms(8,9) by simp
  have step: "run_tests_loop cat task_ids out_dir n_jobs timeout (Some s) (tid # rest) st =
      bind_io (create_dir_check (''/'' @ dataset_name ds)) (\<lambda>created.
        if \<not> created then
          run_tests_loop cat task_ids out_dir n_jobs timeout (Some s) rest
        else
          bind_io (run_task task (out_dir @ ''/'' @ dataset_name ds) n_jobs timeout (Some s)) (\<lambda>_.
          run_tests_loop cat task_ids out_dir n_jobs timeout (Some s) rest))
       (st\<lparr>calls := calls st @ [Get_task tid, Get_dataset (task_id task)]\<rparr>)"
    by (simp only: run_tests_loop.simps sel if_False)
      (simp add: assms(1,2) bind_io_external Let_def cong: if_cong)
  show ?thesis
    unfolding step by (simp add: new [simplified] bind_io_Inr run_task_timeout_state [OF assms(2-5)])
qed

lemma run_tests_loop_exists:
  assumes "get_task cat tid = Inr task" "get_dataset task = Inr ds"
    "\<forall>ids. task_ids = Some ids \<longrightarrow> tid \<in> set ids"
    "is_dir st (''/'' @ dataset_name ds)"
  shows "run_tests_loop cat task_ids out_dir n_jobs timeout task_timeout (tid # rest) st =
     run_tests_loop cat task_ids out_dir n_jobs timeout task_timeout rest
       (st\<lparr>calls := calls st @ [Get_task tid, Get_dataset (task_id task),
                    Mkdir (''/'' @ dataset_name ds)],
            stdout := stdout st @ [''Test directory /'' @ dataset_name ds @
                                   '' already exists.'']\<rparr>)"
proof -
  have sel: "\<not> (task_ids \<noteq> None \<and> tid \<notin> set (the task_ids))"
    using assms(3) by (cases task_ids) auto
  have ex: "create_dir_check (''/'' @ dataset_name ds)
       (st\<lparr>calls := calls st @ [Get_task tid, Get_dataset (task_id task)]\<rparr>) =
     (Inr False, st\<lparr>calls := calls st @ [Get_task tid, Get_dataset (task_id task),
                                Mkdir (''/'' @ dataset_name ds)],
            stdout := stdout st @ [''Test directory /'' @ dataset_name ds @
                                   '' already exists.'']\<rparr>)"
    using create_dir_check_exists [of "st\<lparr>calls := calls st @ [Get_task tid, Get_dataset (task_id task)]\<rparr>"
        "''/'' @ dataset_name ds"] assms(4) by simp
  have step: "run_tests_loop cat task_ids out_dir n_jobs timeout task_timeout (tid # rest) st =
      bind_io (create_dir_check (''/'' @ dataset_name ds)) (\<lambda>created.
        if \<not> created then
          run_tests_loop cat task_ids out_dir n_jobs timeout task_timeout rest
        else
          bind_io (run_task task (out_dir @ ''/'' @ dataset_name ds) n_jobs timeout task_timeout) (\<lambda>_.
          run_tests_loop cat task_ids out_dir n_jobs timeout task_timeout rest))
       (st\<lparr>calls := calls st @ [Get_task tid, Get_dataset (task_id task)]\<rparr>)"
    by (simp only: run_tests_loop.simps sel if_False)
      (simp add: assms(1,2) bind_io_external Let_def cong: if_cong)
  show ?thesis
    unfolding step bind_io_def ex by simp
qed


end
